theory Spec2Isabelle
  imports Main "HOL-Library.Sublist"
begin

section \<open>Data model of the registry\<close>

text \<open>
  The registry is a Flask application over two module-level dictionaries
  (\<open>servers\<close>, \<open>health_cache\<close>) and one file (\<open>servers.json\<close>). The handlers are
  modelled as functions from the state to a response and the next state. Everything the
  handlers obtain from outside the process (the wall clock, HTTP replies, the tool
  transport, the socket layer, the random number generator) is read from an environment
  record, over which every theorem is universally quantified.
\<close>

text \<open>The dataclass \<open>Server\<close>, fields in declaration order.\<close>

record Server =
  name :: string
  description :: string
  url :: string
  port :: int

text \<open>A tool descriptor returned by the transport's \<open>list_tools\<close>; only \<open>name\<close> is
  read and rewritten by the registry, the rest is passed through.\<close>

record tool =
  t_name :: string
  t_description :: string
  t_input_schema :: string

text \<open>JSON scalars that occur in request arguments.\<close>

datatype jval = JStr string | JInt int

type_synonym args = "(string \<times> jval) list"

type_synonym content = string

text \<open>Exceptions the handlers raise and do not catch (Flask answers 500).\<close>

datatype exn = KeyError string | RuntimeError string | ValueError | OverflowError | TypeError

text \<open>An outbound call either returns or raises \<open>requests.RequestException\<close>, the one
  exception class the handlers catch around network calls.\<close>

datatype 'a reply = Reply 'a | RequestException

text \<open>The network calls a handler makes, logged in order:
  \<open>requests.get(url, timeout=t)\<close>, \<open>FastMCPHttpClient(base).list_tools()\<close> and
  \<open>FastMCPHttpClient(base).call_tool(tool, arguments)\<close>.\<close>

datatype net_call =
    HealthGet string nat
  | ListTools string
  | CallTool string string args

text \<open>What a handler returns: \<open>jsonify(payload), code\<close>, \<open>jsonify({"error": msg}), code\<close>,
  or an uncaught exception.\<close>

text \<open>What one probe of a port does: \<open>sock.bind\<close> succeeds, or it raises
  \<open>socket.error\<close> (which the loop catches), or the probe raises another exception
  (which the loop does not catch).\<close>

datatype bind_outcome = Bound | SocketError | Raises exn

text \<open>What the socket layer makes of a host name: it cannot be encoded (non-ASCII text
  that is not a valid IDNA name, an embedded null character), it does not resolve, or it
  resolves to an address.\<close>

datatype host_status = Unencodable | Unresolvable | Resolves

datatype 'a response =
    Response nat 'a
  | ErrorResponse nat string
  | Unhandled exn

text \<open>
  The environment of one handler invocation. Replies may depend on the calls made so far
  (the log), so a backend may answer two calls differently. \<open>clock n\<close> is the value of the
  \<open>n\<close>-th \<open>datetime.now()\<close> of the process, in microseconds. \<open>hostname u\<close> is
  \<open>urlparse(u).hostname\<close>: the host name, \<open>None\<close>, or the exception that
  \<open>urlparse\<close> raises on a malformed url (\<open>ValueError\<close> on \<open>http://[/]\<close>).
  \<open>new_socket p\<close> is the exception, if any, that \<open>socket.socket(...)\<close> raises when
  the probe of port \<open>p\<close> opens its socket; \<open>host_status\<close> is explained above;
  \<open>bind_ok host p\<close> tells whether the operating system binds port \<open>p\<close> (a valid
  port) on the address of \<open>host\<close>, and otherwise \<open>sock.bind\<close> raises
  \<open>socket.error\<close>. \<open>seed\<close> drives \<open>random.randint\<close>;
  \<open>permission_description\<close> is \<open>permission_server.mcp.description\<close>, a module that is
  not part of the sources at hand.
\<close>

record env =
  clock :: "nat \<Rightarrow> int"
  http_get :: "net_call list \<Rightarrow> string \<Rightarrow> int reply"
  list_tools_rpc :: "net_call list \<Rightarrow> string \<Rightarrow> tool list reply"
  call_tool_rpc :: "net_call list \<Rightarrow> string \<Rightarrow> string \<Rightarrow> args \<Rightarrow> content list reply"
  hostname :: "string \<Rightarrow> exn + string option"
  new_socket :: "int \<Rightarrow> exn option"
  host_status :: "string \<Rightarrow> host_status"
  bind_ok :: "string \<Rightarrow> int \<Rightarrow> bool"
  seed :: nat
  permission_description :: string

text \<open>A snapshot file holds a JSON object of JSON objects. An inner object is typed as
  the dataclass annotates its fields: for each of the four field names the value of that
  key, if the object has the key, and the list of the other keys of the object.\<close>

record entry =
  entry_name :: "string option"
  entry_description :: "string option"
  entry_url :: "string option"
  entry_port :: "int option"
  entry_other_keys :: "string list"

type_synonym snapshot = "(string \<times> entry) list"

text \<open>
  The process state: the global \<open>servers\<close> (a Python dict, so insertion-ordered with
  unique keys: an association list), the global \<open>health_cache\<close>, the content of
  \<open>STORAGE_FILE\<close> (\<open>None\<close> when the file does not exist), the number of clock readings
  taken so far, and the log of network calls.
\<close>

record state =
  servers :: "(string \<times> Server) list"
  health_cache :: "string \<rightharpoonup> int \<times> bool"
  storage_file :: "snapshot option"
  ticks :: nat
  net_log :: "net_call list"

definition PERMISSION_SERVER_NAME :: string where
  "PERMISSION_SERVER_NAME = ''PermissionServer''"

text \<open>Python dictionaries: \<open>d[k] = v\<close> replaces the value of an existing key in place and
  appends a new key at the end; \<open>d.values()\<close> lists the values in insertion order.\<close>

fun dict_set :: "('k \<times> 'v) list \<Rightarrow> 'k \<Rightarrow> 'v \<Rightarrow> ('k \<times> 'v) list" where
  "dict_set [] k v = [(k, v)]"
| "dict_set ((k', v') # d) k v = (if k' = k then (k, v) # d else (k', v') # dict_set d k v)"

definition dict_values :: "('k \<times> 'v) list \<Rightarrow> 'v list" where
  "dict_values d = map snd d"

text \<open>\<open>datetime.now()\<close>.\<close>

definition now :: "env \<Rightarrow> state \<Rightarrow> int \<times> state" where
  "now e st = (clock e (ticks st), st\<lparr>ticks := Suc (ticks st)\<rparr>)"

text \<open>\<open>str(n)\<close> for an integer, and \<open>f"{server.url}:{server.port}"\<close>.\<close>

fun str_nat :: "nat \<Rightarrow> string" where
  "str_nat n =
     (if n < 10 then [''0123456789'' ! n]
      else str_nat (n div 10) @ [''0123456789'' ! (n mod 10)])"

declare str_nat.simps [simp del]

definition str_int :: "int \<Rightarrow> string" where
  "str_int i = (if i < 0 then CHR ''-'' # str_nat (nat (- i)) else str_nat (nat i))"

definition base_url :: "Server \<Rightarrow> string" where
  "base_url server = url server @ '':'' @ str_int (port server)"

text \<open>\<open>f"'{s}'"\<close>: a string between apostrophes, as the error messages have it.\<close>

definition quoted :: "string \<Rightarrow> string" where
  "quoted s = CHR 0x27 # s @ [CHR 0x27]"

section \<open>Port Allocator: \<open>_generate_port\<close>\<close>

text \<open>\<open>random.randint(a, b)\<close> returns some \<open>N\<close> with \<open>a \<le> N \<le> b\<close> and raises
  \<open>ValueError\<close> on an empty range. Which \<open>N\<close> is decided by the generator's state, here
  the seed.\<close>

definition randint :: "nat \<Rightarrow> int \<Rightarrow> int \<Rightarrow> exn + int" where
  "randint s a b = (if b < a then Inl ValueError else Inr (a + int s mod (b - a + 1)))"

text \<open>\<open>urlparse(server_url).hostname or "127.0.0.1"\<close>: \<open>None\<close> and the empty string
  are both falsy; an exception of \<open>urlparse\<close> leaves \<open>_generate_port\<close>.\<close>

definition bind_host :: "env \<Rightarrow> string \<Rightarrow> exn + string" where
  "bind_host e server_url =
     (case hostname e server_url of
        Inl err \<Rightarrow> Inl err
      | Inr None \<Rightarrow> Inr ''127.0.0.1''
      | Inr (Some h) \<Rightarrow> Inr (if h = [] then ''127.0.0.1'' else h))"

text \<open>\<open>sock.bind((host, port))\<close>, in the order in which the socket module works: the
  host name is encoded (\<open>TypeError\<close> when it cannot be); a port that does not fit a C
  \<open>int\<close> raises \<open>OverflowError\<close>; the host is resolved (a failure is
  \<open>socket.gaierror\<close>, a \<open>socket.error\<close>); a port outside 0..65535 raises
  \<open>OverflowError\<close>; only then the address is bound.\<close>

definition sock_bind :: "env \<Rightarrow> string \<Rightarrow> int \<Rightarrow> bind_outcome" where
  "sock_bind e host p =
     (case host_status e host of
        Unencodable \<Rightarrow> Raises TypeError
      | Unresolvable \<Rightarrow>
          if p < - 2147483648 \<or> 2147483647 < p then Raises OverflowError else SocketError
      | Resolves \<Rightarrow>
          if p < 0 \<or> 65535 < p then Raises OverflowError
          else if bind_ok e host p then Bound else SocketError)"

text \<open>One pass of the loop body: \<open>socket.socket(...)\<close>, outside the \<open>try\<close>, then the
  bind inside it.\<close>

definition probe_port :: "env \<Rightarrow> string \<Rightarrow> int \<Rightarrow> bind_outcome" where
  "probe_port e host p =
     (case new_socket e p of
        Some err \<Rightarrow> Raises err
      | None \<Rightarrow> sock_bind e host p)"

text \<open>The loop \<open>while port <= end_port\<close>: bind and return the port, or on
  \<open>socket.error\<close> go on with \<open>port + 1\<close>, or let another exception through; after
  the loop, \<open>RuntimeError\<close>.\<close>

function scan_ports :: "(int \<Rightarrow> bind_outcome) \<Rightarrow> int \<Rightarrow> int \<Rightarrow> exn + int" where
  "scan_ports probe p end_port =
     (if p \<le> end_port
      then (case probe p of
              Bound \<Rightarrow> Inr p
            | SocketError \<Rightarrow> scan_ports probe (p + 1) end_port
            | Raises err \<Rightarrow> Inl err)
      else Inl (RuntimeError ''No available ports found in the specified range''))"
  by pat_completeness auto
termination
  by (relation "measure (\<lambda>(probe, p, end_port). nat (end_port + 1 - p))") auto

declare scan_ports.simps [simp del]

text \<open>\<open>_generate_port\<close>: the host first, then the random starting port, then the
  loop.\<close>

definition generate_port :: "env \<Rightarrow> string \<Rightarrow> int \<Rightarrow> int \<Rightarrow> exn + int" where
  "generate_port e server_url start_port end_port =
     (case bind_host e server_url of
        Inl err \<Rightarrow> Inl err
      | Inr host \<Rightarrow>
          (case randint (seed e) start_port end_port of
             Inl err \<Rightarrow> Inl err
           | Inr p \<Rightarrow> scan_ports (probe_port e host) p end_port))"

section \<open>Name resolution in \<open>call_tool\<close>\<close>

text \<open>\<open>s.split(".", 1)\<close> for an \<open>s\<close> that contains a dot: the text before the first dot
  and the text after it.\<close>

definition split_dot1 :: "string \<Rightarrow> string \<times> string" where
  "split_dot1 s = (takeWhile (\<lambda>c. c \<noteq> CHR ''.'') s, drop 1 (dropWhile (\<lambda>c. c \<noteq> CHR ''.'') s))"

text \<open>Lines 226 to 231: \<open>server_name = None; tool_name = name\<close>, then the split when
  \<open>"." in tool_name\<close>.\<close>

definition resolve_name :: "string \<Rightarrow> string option \<times> string" where
  "resolve_name nm =
     (if CHR ''.'' \<in> set nm
      then (let (server_name, tool_name) = split_dot1 nm in (Some server_name, tool_name))
      else (None, nm))"

section \<open>Health Prober: \<open>check_server_health\<close>\<close>

text \<open>\<open>timedelta(seconds=30)\<close> in microseconds, and the \<open>timeout=5\<close> of the probe.\<close>

definition HEALTH_TTL :: int where
  "HEALTH_TTL = 30 * 1000000"

definition PROBE_TIMEOUT :: nat where
  "PROBE_TIMEOUT = 5"

definition health_url :: "Server \<Rightarrow> string" where
  "health_url server = base_url server @ ''/health''"

text \<open>Lines 89 to 96: the request, the verdict \<open>status_code == 200\<close> (or \<open>False\<close> on a
  \<open>RequestException\<close>), the cache write with a new \<open>datetime.now()\<close>.\<close>

definition probe_health :: "env \<Rightarrow> Server \<Rightarrow> state \<Rightarrow> bool \<times> state" where
  "probe_health e server st =
     (let r = http_get e (net_log st) (health_url server);
          st1 = st\<lparr>net_log := net_log st @ [HealthGet (health_url server) PROBE_TIMEOUT]\<rparr>;
          is_healthy = (case r of Reply status_code \<Rightarrow> status_code = 200 | RequestException \<Rightarrow> False);
          (t, st2) = now e st1
      in (is_healthy, st2\<lparr>health_cache := (health_cache st2)(name server \<mapsto> (t, is_healthy))\<rparr>))"

text \<open>Lines 84 to 87 in front of it: a cached verdict is returned when
  \<open>datetime.now() - last_check < timedelta(seconds=30)\<close>.\<close>

definition check_server_health :: "env \<Rightarrow> Server \<Rightarrow> state \<Rightarrow> bool \<times> state" where
  "check_server_health e server st =
     (case health_cache st (name server) of
        Some (last_check, is_healthy) \<Rightarrow>
          (let (t, st1) = now e st in
           if t - last_check < HEALTH_TTL then (is_healthy, st1) else probe_health e server st1)
      | None \<Rightarrow> probe_health e server st)"

text \<open>The comprehension \<open>[s for s in servers.values() if check_server_health(s)]\<close>, used
  by \<open>get_servers\<close> and by \<open>call_tool\<close>: the checks run in order, each on the state the
  previous one left.\<close>

fun healthy_servers :: "env \<Rightarrow> Server list \<Rightarrow> state \<Rightarrow> Server list \<times> state" where
  "healthy_servers e [] st = ([], st)"
| "healthy_servers e (s # ss) st =
     (let (ok, st1) = check_server_health e s st;
          (hs, st2) = healthy_servers e ss st1
      in (if ok then s # hs else hs, st2))"

section \<open>Registry Store: \<open>save_servers\<close>, \<open>load_servers\<close>, \<open>register_server\<close>\<close>

text \<open>\<open>vars(server)\<close>: the attribute dictionary of the dataclass.\<close>

definition vars :: "Server \<Rightarrow> entry" where
  "vars server =
     \<lparr>entry_name = Some (name server), entry_description = Some (description server),
      entry_url = Some (url server), entry_port = Some (port server), entry_other_keys = []\<rparr>"

text \<open>\<open>json.dump({name: vars(server) for name, server in servers.items()}, f)\<close>. The
  JSON text itself is not modelled: the file holds the JSON value, which \<open>json.load\<close>
  gives back, and the write succeeds.\<close>

definition save_servers :: "state \<Rightarrow> state" where
  "save_servers st =
     st\<lparr>storage_file := Some (map (\<lambda>(k, server). (k, vars server)) (servers st))\<rparr>"

text \<open>\<open>Server(**server_data)\<close> raises \<open>TypeError\<close> when a field is missing or the
  object has a key that is not a field, and builds the instance otherwise.\<close>

definition server_of_dict :: "entry \<Rightarrow> Server option" where
  "server_of_dict d =
     (case (entry_name d, entry_description d, entry_url d, entry_port d, entry_other_keys d) of
        (Some n, Some ds, Some u, Some p, []) \<Rightarrow>
          Some \<lparr>name = n, description = ds, url = u, port = p\<rparr>
      | _ \<Rightarrow> None)"

text \<open>The loop of \<open>load_servers\<close> over \<open>data.values()\<close>, filling the local dictionary
  \<open>servers\<close> under \<open>server.name\<close>. An exception leaves the loop through the enclosing
  \<open>except Exception\<close>, and what was loaded so far is returned.\<close>

fun load_entries ::
  "env \<Rightarrow> entry list \<Rightarrow> (string \<times> Server) list \<Rightarrow> state \<Rightarrow>
     (string \<times> Server) list \<times> state" where
  "load_entries e [] loaded st = (loaded, st)"
| "load_entries e (server_data # rest) loaded st =
     (case server_of_dict server_data of
        None \<Rightarrow> (loaded, st)
      | Some server \<Rightarrow>
          (let (ok, st1) = check_server_health e server st in
           if ok then load_entries e rest (dict_set loaded (name server) server) st1
           else load_entries e rest loaded st1))"

definition load_servers :: "env \<Rightarrow> state \<Rightarrow> (string \<times> Server) list \<times> state" where
  "load_servers e st =
     (case storage_file st of
        None \<Rightarrow> ([], st)
      | Some data \<Rightarrow> load_entries e (dict_values data) [] st)"

text \<open>The JSON body of \<open>POST /register_server\<close>: a field is \<open>Some\<close> when the key is in
  the body (\<open>server_url\<close>, \<open>server_name\<close>, \<open>server_description\<close>). The values are
  strings, as the dataclass annotates them.\<close>

record register_request =
  reg_server_url :: "string option"
  reg_server_name :: "string option"
  reg_server_description :: "string option"

definition register_server :: "env \<Rightarrow> register_request \<Rightarrow> state \<Rightarrow> Server response \<times> state" where
  "register_server e data st =
     (case (reg_server_url data, reg_server_name data, reg_server_description data) of
        (Some u, Some n, Some d) \<Rightarrow>
          if n = PERMISSION_SERVER_NAME then (ErrorResponse 403 ''Reserved server name'', st)
          else (case generate_port e u 5000 65535 of
                  Inl err \<Rightarrow> (Unhandled err, st)
                | Inr p \<Rightarrow>
                    (let new_server = \<lparr>name = n, description = d, url = u, port = p\<rparr>;
                         st1 = st\<lparr>servers := dict_set (servers st) n new_server\<rparr>
                     in (Response 201 new_server, save_servers st1)))
      | _ \<Rightarrow> (ErrorResponse 400 ''Missing required fields'', st))"

text \<open>\<open>GET /servers\<close>.\<close>

definition get_servers :: "env \<Rightarrow> state \<Rightarrow> Server list response \<times> state" where
  "get_servers e st =
     (let (hs, st1) = healthy_servers e (dict_values (servers st)) st in (Response 200 hs, st1))"

section \<open>Startup: \<open>load_permission_server\<close> and \<open>run\<close>\<close>

text \<open>Of \<open>load_permission_server\<close> the effect on \<open>servers\<close> is modelled; the thread
  that serves the permission tools and the one-second sleep are not.\<close>

definition load_permission_server :: "env \<Rightarrow> state \<Rightarrow> exn + state" where
  "load_permission_server e st =
     (case generate_port e ''http://127.0.0.1'' 5000 65535 of
        Inl err \<Rightarrow> Inl err
      | Inr p \<Rightarrow>
          Inr (st\<lparr>servers := dict_set (servers st) PERMISSION_SERVER_NAME
                 \<lparr>name = PERMISSION_SERVER_NAME, description = permission_description e,
                  url = ''http://127.0.0.1'', port = p\<rparr>\<rparr>))"

text \<open>The loop of \<open>run\<close> over \<open>loaded_servers.keys()\<close>.\<close>

fun adopt_loaded :: "(string \<times> Server) list \<Rightarrow> (string \<times> Server) list \<Rightarrow> (string \<times> Server) list" where
  "adopt_loaded [] tbl = tbl"
| "adopt_loaded ((k, server) # rest) tbl =
     adopt_loaded rest (if k \<noteq> PERMISSION_SERVER_NAME then dict_set tbl k server else tbl)"

definition run :: "env \<Rightarrow> state \<Rightarrow> exn + state" where
  "run e st =
     (case load_permission_server e st of
        Inl err \<Rightarrow> Inl err
      | Inr st1 \<Rightarrow>
          (let (loaded_servers, st2) = load_servers e st1
           in Inr (save_servers (st2\<lparr>servers := adopt_loaded loaded_servers (servers st2)\<rparr>))))"

section \<open>Tool Directory: \<open>get_tools\<close>\<close>

text \<open>\<open>tool.name = f"{server.name}.{tool.name}"\<close>.\<close>

definition qualify :: "Server \<Rightarrow> tool \<Rightarrow> tool" where
  "qualify server t = t\<lparr>t_name := name server @ ''.'' @ t_name t\<rparr>"

text \<open>The loop of \<open>get_tools\<close> in \<open>mcp_registry_server.py\<close>: a server whose health check
  fails is passed over; a \<open>RequestException\<close> from \<open>list_tools\<close> marks the server
  unhealthy in the cache.\<close>

fun get_tools_loop :: "env \<Rightarrow> Server list \<Rightarrow> tool list \<Rightarrow> state \<Rightarrow> tool list \<times> state" where
  "get_tools_loop e [] all_tools st = (all_tools, st)"
| "get_tools_loop e (server # rest) all_tools st =
     (let (ok, st1) = check_server_health e server st in
      if \<not> ok then get_tools_loop e rest all_tools st1
      else
        (let r = list_tools_rpc e (net_log st1) (base_url server);
             st2 = st1\<lparr>net_log := net_log st1 @ [ListTools (base_url server)]\<rparr>
         in case r of
              Reply tools \<Rightarrow> get_tools_loop e rest (all_tools @ map (qualify server) tools) st2
            | RequestException \<Rightarrow>
                (let (t, st3) = now e st2
                 in get_tools_loop e rest all_tools
                      (st3\<lparr>health_cache := (health_cache st3)(name server \<mapsto> (t, False))\<rparr>))))"

text \<open>\<open>target_servers = [servers[server_name]] if server_name else servers.values()\<close>;
  a missing key is the \<open>KeyError\<close> that the handler answers with 404.\<close>

definition get_tools :: "env \<Rightarrow> string option \<Rightarrow> state \<Rightarrow> tool list response \<times> state" where
  "get_tools e server_name st =
     (case (case server_name of
              Some sn \<Rightarrow>
                if sn \<noteq> [] then (case map_of (servers st) sn of
                                   None \<Rightarrow> Inl sn
                                 | Some server \<Rightarrow> Inr [server])
                else Inr (dict_values (servers st))
            | None \<Rightarrow> Inr (dict_values (servers st))) of
        Inl sn \<Rightarrow> (ErrorResponse 404 (''Server '' @ quoted sn @ '' not found''), st)
      | Inr target_servers \<Rightarrow>
          (let (all_tools, st1) = get_tools_loop e target_servers [] st
           in (Response 200 all_tools, st1)))"



section \<open>Dispatcher: \<open>call_tool\<close>\<close>

text \<open>The JSON body of \<open>POST /tools/call_tool\<close>: the \<open>name\<close> entry (a string), if
  any, and the remaining entries, which are the arguments of the call.\<close>

record tool_request =
  req_name :: "string option"
  req_args :: args

definition CONSENT_TOOL :: string where
  "CONSENT_TOOL = ''ask_for_permission''"

text \<open>Lines 230 to 245 after the split: the permission check, the lookup of a named
  server, or the candidates of an unqualified name. \<open>Inl\<close> is an early return.\<close>

definition select_targets ::
  "env \<Rightarrow> string option \<Rightarrow> string \<Rightarrow> state \<Rightarrow> (content list response + Server list) \<times> state" where
  "select_targets e server_name tool_name st =
     (case server_name of
        Some sn \<Rightarrow>
          if tool_name = CONSENT_TOOL \<and> sn \<noteq> PERMISSION_SERVER_NAME
          then (Inl (ErrorResponse 403 ''Permission denied: unauthorized server''), st)
          else (case map_of (servers st) sn of
                  None \<Rightarrow> (Inl (ErrorResponse 404 (''Server '' @ quoted sn @ '' not found'')), st)
                | Some server \<Rightarrow> (Inr [server], st))
      | None \<Rightarrow>
          if tool_name = CONSENT_TOOL
          then (case map_of (servers st) PERMISSION_SERVER_NAME of
                  None \<Rightarrow> (Inl (Unhandled (KeyError PERMISSION_SERVER_NAME)), st)
                | Some server \<Rightarrow> (Inr [server], st))
          else (let (hs, st1) = healthy_servers e (dict_values (servers st)) st in (Inr hs, st1)))"

text \<open>Lines 248 to 265: the body of the loop over \<open>target_servers\<close>, then the loop.
  \<open>Some result\<close> is the \<open>return\<close> inside the loop, \<open>None\<close> is a \<open>continue\<close>
  (for the loop: falling out of it).\<close>

definition try_server ::
  "env \<Rightarrow> string \<Rightarrow> args \<Rightarrow> Server \<Rightarrow> state \<Rightarrow> content list option \<times> state" where
  "try_server e tool_name data server st =
     (let r = list_tools_rpc e (net_log st) (base_url server);
          st1 = st\<lparr>net_log := net_log st @ [ListTools (base_url server)]\<rparr>
      in case r of
           RequestException \<Rightarrow> (None, st1)
         | Reply available_tools \<Rightarrow>
             if \<not> list_ex (\<lambda>t. t_name t = tool_name) available_tools
             then (None, st1)
             else
               (let r2 = call_tool_rpc e (net_log st1) (base_url server) tool_name data;
                    st2 = st1\<lparr>net_log := net_log st1 @ [CallTool (base_url server) tool_name data]\<rparr>
                in case r2 of
                     Reply result \<Rightarrow> (Some result, st2)
                   | RequestException \<Rightarrow> (None, st2)))"

fun invoke_loop ::
  "env \<Rightarrow> string \<Rightarrow> args \<Rightarrow> Server list \<Rightarrow> state \<Rightarrow> content list option \<times> state" where
  "invoke_loop e tool_name data [] st = (None, st)"
| "invoke_loop e tool_name data (server # rest) st =
     (case try_server e tool_name data server st of
        (Some result, st1) \<Rightarrow> (Some result, st1)
      | (None, st1) \<Rightarrow> invoke_loop e tool_name data rest st1)"

text \<open>Lines 268 to 270: the message, with the server part \<open>if server_name\<close> (neither
  \<open>None\<close> nor empty).\<close>

definition not_found_message :: "string option \<Rightarrow> string \<Rightarrow> string" where
  "not_found_message server_name tool_name =
     ''Tool '' @ quoted tool_name @ '' not found'' @
     (case server_name of
        None \<Rightarrow> []
      | Some sn \<Rightarrow> if sn \<noteq> [] then '' on server '' @ quoted sn else [])"

definition call_tool :: "env \<Rightarrow> tool_request \<Rightarrow> state \<Rightarrow> content list response \<times> state" where
  "call_tool e data st =
     (case req_name data of
        None \<Rightarrow> (ErrorResponse 400 ''Tool name not provided'', st)
      | Some nm \<Rightarrow>
          (let (server_name, tool_name) = resolve_name nm in
           case select_targets e server_name tool_name st of
             (Inl resp, st1) \<Rightarrow> (resp, st1)
           | (Inr target_servers, st1) \<Rightarrow>
               (case invoke_loop e tool_name (req_args data) target_servers st1 of
                  (Some result, st2) \<Rightarrow> (Response 200 result, st2)
                | (None, st2) \<Rightarrow>
                    (ErrorResponse 404 (not_found_message server_name tool_name), st2))))"

section \<open>The table invariant\<close>

text \<open>Every entry of \<open>servers\<close> is stored under its own name, and keys are unique.\<close>

definition table_ok :: "(string \<times> Server) list \<Rightarrow> bool" where
  "table_ok tbl = (distinct (map fst tbl) \<and> list_all (\<lambda>(k, server). name server = k) tbl)"

section \<open>Observations used in the statements\<close>

text \<open>An observation on the log, used to state which backends were asked for their tool
  catalog and in which order: the addresses of the \<open>list_tools\<close> calls.\<close>

fun listed :: "net_call list \<Rightarrow> string list" where
  "listed [] = []"
| "listed (ListTools b # cs) = b # listed cs"
| "listed (c # cs) = listed cs"


text \<open>The assumption of the snapshot round trip: each of the backends passes
  \<open>check_server_health\<close>, the checks running in order, each on the state the previous
  one left (as they do in \<open>load_servers\<close>).\<close>

fun all_healthy :: "env \<Rightarrow> Server list \<Rightarrow> state \<Rightarrow> bool" where
  "all_healthy e [] st = True"
| "all_healthy e (s # ss) st =
     (let (ok, st1) = check_server_health e s st in ok \<and> all_healthy e ss st1)"


section \<open>Example environments and states\<close>

text \<open>A loopback host on which the ports from 5003 upward are free, a generator that
  draws the second port of a range, backends that answer every probe with 200, list one
  tool \<open>echo_tool\<close> and answer every call.\<close>

definition echo_tool :: tool where
  "echo_tool = \<lparr>t_name = ''echo_tool'', t_description = ''Echo'', t_input_schema = ''{}''\<rparr>"

definition env_up :: env where
  "env_up =
     \<lparr>clock = (\<lambda>n. int n * 1000000),
      http_get = (\<lambda>log u. Reply 200),
      list_tools_rpc = (\<lambda>log b. Reply [echo_tool]),
      call_tool_rpc = (\<lambda>log b t a. Reply [''Echo: Hi'']),
      hostname = (\<lambda>u. Inr (Some ''127.0.0.1'')),
      new_socket = (\<lambda>p. None),
      host_status = (\<lambda>h. Resolves),
      bind_ok = (\<lambda>h p. 5003 \<le> p),
      seed = 1,
      permission_description = ''Asks the user for permission''\<rparr>"

text \<open>The state of a process that has just started, before \<open>run\<close>.\<close>

definition state0 :: state where
  "state0 = \<lparr>servers = [], health_cache = Map.empty, storage_file = None, ticks = 0, net_log = []\<rparr>"

text \<open>A registered backend, and a state in which the prober found it down seven
  seconds ago.\<close>

definition echo_server :: Server where
  "echo_server = \<lparr>name = ''Echo'', description = ''d'', url = ''http://127.0.0.1'', port = 5003\<rparr>"

definition state_echo_down :: state where
  "state_echo_down =
     \<lparr>servers = [(''Echo'', echo_server)], health_cache = [''Echo'' \<mapsto> (0, False)],
      storage_file = None, ticks = 7, net_log = []\<rparr>"

text \<open>Registration requests: a backend \<open>Echo\<close>, the same name once more with other
  attributes (handled by a process whose generator draws port 5010), the reserved name,
  and the reserved name with the \<open>server_url\<close> field missing.\<close>

definition reg_echo :: register_request where
  "reg_echo =
     \<lparr>reg_server_url = Some ''http://127.0.0.1'', reg_server_name = Some ''Echo'',
      reg_server_description = Some ''d''\<rparr>"

definition reg_echo_again :: register_request where
  "reg_echo_again =
     \<lparr>reg_server_url = Some ''http://localhost'', reg_server_name = Some ''Echo'',
      reg_server_description = Some ''d2''\<rparr>"

definition env_late :: env where
  "env_late = env_up\<lparr>seed := 10\<rparr>"

definition reg_reserved :: register_request where
  "reg_reserved =
     \<lparr>reg_server_url = Some ''http://127.0.0.1'', reg_server_name = Some PERMISSION_SERVER_NAME,
      reg_server_description = Some ''d''\<rparr>"

definition reg_reserved_no_url :: register_request where
  "reg_reserved_no_url =
     \<lparr>reg_server_url = None, reg_server_name = Some PERMISSION_SERVER_NAME,
      reg_server_description = Some ''d''\<rparr>"

definition echo_moved :: Server where
  "echo_moved = \<lparr>name = ''Echo'', description = ''d2'', url = ''http://localhost'', port = 5010\<rparr>"

text \<open>A second backend, the privileged backend, a table holding all three, and two more
  environments: one where every backend claims to offer the consent tool, one where the
  first network call of a request fails.\<close>

definition evil_server :: Server where
  "evil_server = \<lparr>name = ''Evil'', description = ''x'', url = ''http://evil.example'', port = 5004\<rparr>"

definition permission_server :: Server where
  "permission_server =
     \<lparr>name = PERMISSION_SERVER_NAME, description = ''Asks the user for permission'',
      url = ''http://127.0.0.1'', port = 5005\<rparr>"

definition state_three :: state where
  "state_three =
     \<lparr>servers = [(PERMISSION_SERVER_NAME, permission_server), (''Echo'', echo_server),
                 (''Evil'', evil_server)],
      health_cache = Map.empty, storage_file = None, ticks = 0, net_log = []\<rparr>"

definition consent_decl :: tool where
  "consent_decl = \<lparr>t_name = ''ask_for_permission'', t_description = ''x'', t_input_schema = ''{}''\<rparr>"

definition env_evil :: env where
  "env_evil = env_up\<lparr>list_tools_rpc := (\<lambda>log b. Reply [consent_decl]),
                     call_tool_rpc := (\<lambda>log b t a. Reply [''granted''])\<rparr>"







definition state_restarted :: state where
  "state_restarted = state0\<lparr>storage_file := storage_file (save_servers state_three)\<rparr>"

section \<open>Properties of the Port Allocator\<close>






lemma probe_port_Bound:
  "probe_port e host p = Bound \<longleftrightarrow>
     new_socket e p = None \<and> host_status e host = Resolves \<and> 0 \<le> p \<and> p \<le> 65535 \<and>
     bind_ok e host p"
  by (auto simp: probe_port_def sock_bind_def split: option.splits host_status.splits if_splits)

lemma generate_port_bad_url:
  assumes "hostname e server_url = Inl err"
  shows "generate_port e server_url start_port end_port = Inl err"
  using assms by (simp add: generate_port_def bind_host_def)

lemmas eval_port =
  generate_port_def randint_def bind_host_def probe_port_def sock_bind_def scan_ports.simps




section \<open>Properties of name resolution\<close>

lemma split_dot1_append:
  assumes "CHR ''.'' \<notin> set a"
  shows "split_dot1 (a @ ''.'' @ b) = (a, b)"
proof -
  have "takeWhile (\<lambda>c. c \<noteq> CHR ''.'') (a @ CHR ''.'' # b) = a"
    using assms by (induction a) auto
  moreover have "dropWhile (\<lambda>c. c \<noteq> CHR ''.'') (a @ CHR ''.'' # b) = CHR ''.'' # b"
    using assms by (induction a) auto
  ultimately show ?thesis by (simp add: split_dot1_def)
qed

text \<open>
  Claim C10. A requested name with at least one separator is split at the first
  separator only: whenever the name reads \<open>a.b\<close> with no dot in \<open>a\<close>, the server name is
  \<open>a\<close> and the tool name is all of \<open>b\<close>, whatever further dots \<open>b\<close> contains; and every
  name that contains a dot reads that way.
\<close>

theorem resolve_name_splits_at_first_dot:
  "(CHR ''.'' \<notin> set a \<longrightarrow> resolve_name (a @ ''.'' @ b) = (Some a, b)) \<and>
   (CHR ''.'' \<in> set nm \<longrightarrow>
      (\<exists>a b. nm = a @ ''.'' @ b \<and> CHR ''.'' \<notin> set a \<and> resolve_name nm = (Some a, b)))"
proof -
  have first: "CHR ''.'' \<notin> set a \<longrightarrow> resolve_name (a @ ''.'' @ b) = (Some a, b)" for a b
    by (simp add: resolve_name_def split_dot1_append [simplified])
  have "CHR ''.'' \<in> set nm \<longrightarrow>
     (\<exists>a b. nm = a @ ''.'' @ b \<and> CHR ''.'' \<notin> set a \<and> resolve_name nm = (Some a, b))"
  proof
    assume "CHR ''.'' \<in> set nm"
    then obtain a b where "nm = a @ CHR ''.'' # b" and "CHR ''.'' \<notin> set a"
      by (meson split_list_first)
    then show "\<exists>a b. nm = a @ ''.'' @ b \<and> CHR ''.'' \<notin> set a \<and> resolve_name nm = (Some a, b)"
      using first [of a b] by auto
  qed
  with first show ?thesis by blast
qed

theorem resolve_name_splits_at_first_dot_witness:
  "CHR ''.'' \<notin> set ''A'' \<and> CHR ''.'' \<in> set ''A.B.tool'' \<and>
   resolve_name ''A.B.tool'' = (Some ''A'', ''B.tool'') \<and>
   resolve_name ''A.B.tool'' \<noteq> (Some ''A.B'', ''tool'')"
  using resolve_name_splits_at_first_dot [of "''A''" "''B.tool''" "''A.B.tool''"]
  by simp

section \<open>Properties of the Health Prober\<close>

lemma check_cached:
  assumes "health_cache st (name server) = Some (last_check, v)"
    and "clock e (ticks st) - last_check < HEALTH_TTL"
  shows "check_server_health e server st = (v, st\<lparr>ticks := Suc (ticks st)\<rparr>)"
  using assms by (simp add: check_server_health_def now_def)

lemma probe_health_eq:
  "probe_health e server st =
     (http_get e (net_log st) (health_url server) = Reply 200,
      st\<lparr>net_log := net_log st @ [HealthGet (health_url server) 5],
         ticks := Suc (ticks st),
         health_cache := (health_cache st)(name server \<mapsto>
            (clock e (ticks st), http_get e (net_log st) (health_url server) = Reply 200))\<rparr>)"
  by (cases "http_get e (net_log st) (health_url server)")
     (simp_all add: probe_health_def now_def PROBE_TIMEOUT_def Let_def)

lemma check_uncached:
  assumes "health_cache st (name server) = None"
  shows "check_server_health e server st = probe_health e server st"
  using assms by (simp add: check_server_health_def)

lemma check_stale:
  assumes "health_cache st (name server) = Some (last_check, v)"
    and "HEALTH_TTL \<le> clock e (ticks st) - last_check"
  shows "check_server_health e server st = probe_health e server (st\<lparr>ticks := Suc (ticks st)\<rparr>)"
  using assms by (simp add: check_server_health_def now_def)





section \<open>Properties of registration\<close>

lemma dict_set_twice: "dict_set (dict_set d k v) k w = dict_set d k w"
  by (induction d) auto

lemma map_of_dict_set: "map_of (dict_set d k v) = (map_of d)(k \<mapsto> v)"
  by (induction d) (auto simp: fun_eq_iff)

lemma register_server_created:
  assumes "register_server e data st = (Response 201 s, st')"
  shows "\<exists>u n d p.
           reg_server_url data = Some u \<and> reg_server_name data = Some n \<and>
           reg_server_description data = Some d \<and> n \<noteq> PERMISSION_SERVER_NAME \<and>
           generate_port e u 5000 65535 = Inr p \<and>
           s = \<lparr>name = n, description = d, url = u, port = p\<rparr> \<and>
           st' = save_servers (st\<lparr>servers := dict_set (servers st) n s\<rparr>)"
  using assms
  by (auto simp: register_server_def Let_def split: option.splits if_splits sum.splits)

text \<open>
  Claim C2, as stated, fails: a request whose \<open>server_name\<close> is the reserved name and
  which lacks \<open>server_url\<close> is answered 400 "Missing required fields", not 403, because
  the handler checks the required fields first.
\<close>

theorem register_reserved_name_missing_field_is_400:
  "register_server env_up reg_reserved_no_url state0 =
     (ErrorResponse 400 ''Missing required fields'', state0) \<and>
   reg_server_name reg_reserved_no_url = Some PERMISSION_SERVER_NAME \<and>
   fst (register_server env_up reg_reserved_no_url state0) \<noteq>
     ErrorResponse 403 ''Reserved server name''"
  by (simp add: register_server_def reg_reserved_no_url_def)

text \<open>
  Claim C2, amended. A registration request that carries all three required fields and
  whose \<open>server_name\<close> is the reserved privileged name is answered 403 "Reserved server
  name"; a request that lacks any of \<open>server_url\<close>, \<open>server_name\<close>,
  \<open>server_description\<close> is answered 400 "Missing required fields", also when its
  \<open>server_name\<close> is the reserved name. In both cases the whole state, so the Backend
  table and the snapshot file, is left as it was; hence a request for the reserved name
  is always answered 400 or 403 and never registers.
\<close>

theorem register_server_rejections:
  "(reg_server_url data \<noteq> None \<and> reg_server_description data \<noteq> None \<and>
    reg_server_name data = Some PERMISSION_SERVER_NAME \<longrightarrow>
      register_server e data st = (ErrorResponse 403 ''Reserved server name'', st)) \<and>
   (reg_server_url data = None \<or> reg_server_name data = None \<or>
    reg_server_description data = None \<longrightarrow>
      register_server e data st = (ErrorResponse 400 ''Missing required fields'', st)) \<and>
   (reg_server_name data = Some PERMISSION_SERVER_NAME \<longrightarrow>
      (\<exists>code msg. (code = 400 \<or> code = 403) \<and>
         register_server e data st = (ErrorResponse code msg, st)))"
  by (auto simp: register_server_def split: option.splits)

theorem register_server_rejections_witness:
  "reg_server_url reg_reserved \<noteq> None \<and> reg_server_description reg_reserved \<noteq> None \<and>
   reg_server_name reg_reserved = Some PERMISSION_SERVER_NAME \<and>
   register_server env_up reg_reserved state_echo_down =
     (ErrorResponse 403 ''Reserved server name'', state_echo_down) \<and>
   reg_server_url reg_reserved_no_url = None \<and>
   register_server env_up reg_reserved_no_url state_echo_down =
     (ErrorResponse 400 ''Missing required fields'', state_echo_down)"
  using register_server_rejections [of reg_reserved env_up state_echo_down]
        register_server_rejections [of reg_reserved_no_url env_up state_echo_down]
  by (simp add: reg_reserved_def reg_reserved_no_url_def)

text \<open>
  Claim C7. When two registrations under the same server name both succeed (201), the
  record returned by the second carries the second request's url and description and the
  port that the Port Allocator returns during the second registration; after it, the
  table entry for the name is that record and the snapshot file is the image of the
  table, with the \<open>vars\<close> of that record under the name. Nothing of the first
  registration remains: the table is the table before the first registration with the
  name set to the second record, and the second registration alone, run on the state
  before the first, ends in the very same state.
\<close>

theorem reregistration_replaces_record:
  assumes "register_server e1 data1 st0 = (Response 201 s1, st1)"
    and "register_server e2 data2 st1 = (Response 201 s2, st2)"
    and "reg_server_name data1 = reg_server_name data2"
  shows "\<exists>n u d p.
           data2 = \<lparr>reg_server_url = Some u, reg_server_name = Some n,
                    reg_server_description = Some d\<rparr> \<and>
           generate_port e2 u 5000 65535 = Inr p \<and>
           s2 = \<lparr>name = n, description = d, url = u, port = p\<rparr> \<and>
           map_of (servers st2) n = Some s2 \<and>
           servers st2 = dict_set (servers st0) n s2 \<and>
           storage_file st2 = Some (map (\<lambda>(k, server). (k, vars server)) (servers st2)) \<and>
           (\<exists>snap. storage_file st2 = Some snap \<and> map_of snap n = Some (vars s2)) \<and>
           register_server e2 data2 st0 = (Response 201 s2, st2)"
proof -
  obtain u1 n1 d1 p1 where r1:
    "reg_server_name data1 = Some n1"
    "s1 = \<lparr>name = n1, description = d1, url = u1, port = p1\<rparr>"
    "st1 = save_servers (st0\<lparr>servers := dict_set (servers st0) n1 s1\<rparr>)"
    using register_server_created [OF assms(1)] by blast
  obtain u n d p where r2:
    "reg_server_url data2 = Some u" "reg_server_name data2 = Some n"
    "reg_server_description data2 = Some d" "n \<noteq> PERMISSION_SERVER_NAME"
    "generate_port e2 u 5000 65535 = Inr p"
    "s2 = \<lparr>name = n, description = d, url = u, port = p\<rparr>"
    "st2 = save_servers (st1\<lparr>servers := dict_set (servers st1) n s2\<rparr>)"
    using register_server_created [OF assms(2)] by blast
  have same: "n1 = n"
    using assms(3) r1(1) r2(2) by simp
  have data2: "data2 = \<lparr>reg_server_url = Some u, reg_server_name = Some n,
                         reg_server_description = Some d\<rparr>"
    using r2(1-3) by (cases data2) simp
  have tbl: "servers st2 = dict_set (servers st0) n s2"
    using r1(3) r2(7) same by (simp add: save_servers_def dict_set_twice)
  have written: "storage_file st2 = Some (map (\<lambda>(k, server). (k, vars server)) (servers st2))"
    using r2(7) by (simp add: save_servers_def)
  have look: "map_of (servers st2) n = Some s2"
    by (simp add: tbl map_of_dict_set)
  have snap: "map_of (map (\<lambda>(k, server). (k, vars server)) (servers st2)) n = Some (vars s2)"
    using look by (simp add: map_of_map)
  have direct: "register_server e2 data2 st0 = (Response 201 s2, st2)"
    using r1(3) r2 same by (simp add: register_server_def save_servers_def dict_set_twice Let_def)
  show ?thesis
    using data2 r2(5,6) look tbl written snap direct by blast
qed

theorem reregistration_replaces_record_witness:
  "fst (register_server env_up reg_echo state0) = Response 201 echo_server \<and>
   fst (register_server env_late reg_echo_again (snd (register_server env_up reg_echo state0))) =
     Response 201 echo_moved \<and>
   reg_server_name reg_echo = reg_server_name reg_echo_again \<and>
   servers (snd (register_server env_late reg_echo_again
                   (snd (register_server env_up reg_echo state0)))) = [(''Echo'', echo_moved)] \<and>
   storage_file (snd (register_server env_late reg_echo_again
                   (snd (register_server env_up reg_echo state0)))) =
     Some [(''Echo'', vars echo_moved)]"
proof -
  define st1 where "st1 = snd (register_server env_up reg_echo state0)"
  define st2 where "st2 = snd (register_server env_late reg_echo_again st1)"
  have p1: "generate_port env_up ''http://127.0.0.1'' 5000 65535 = Inr 5003"
    by (simp add: eval_port env_up_def)
  have p2: "generate_port env_late ''http://localhost'' 5000 65535 = Inr 5010"
    by (simp add: eval_port env_up_def env_late_def)
  have h1: "register_server env_up reg_echo state0 = (Response 201 echo_server, st1)"
    unfolding st1_def
    by (simp add: register_server_def reg_echo_def p1 PERMISSION_SERVER_NAME_def echo_server_def Let_def)
  have h2: "register_server env_late reg_echo_again st1 = (Response 201 echo_moved, st2)"
    unfolding st2_def
    by (simp add: register_server_def reg_echo_again_def p2 PERMISSION_SERVER_NAME_def echo_moved_def Let_def)
  have h3: "reg_server_name reg_echo = reg_server_name reg_echo_again"
    by (simp add: reg_echo_def reg_echo_again_def)
  have tbl0: "servers state0 = []"
    by (simp add: state0_def)
  obtain snap where
    "servers st2 = dict_set (servers state0) ''Echo'' echo_moved"
    "storage_file st2 = Some (map (\<lambda>(k, server). (k, vars server)) (servers st2))"
    using reregistration_replaces_record [OF h1 h2 h3]
    by (auto simp: reg_echo_again_def echo_moved_def)
  then have c: "servers st2 = [(''Echo'', echo_moved)]"
    and d: "storage_file st2 = Some [(''Echo'', vars echo_moved)]"
    by (simp_all add: tbl0)
  have a: "fst (register_server env_up reg_echo state0) = Response 201 echo_server"
    using h1 by simp
  have b: "fst (register_server env_late reg_echo_again st1) = Response 201 echo_moved"
    using h2 by simp
  show ?thesis
    using a b h3 c d unfolding st2_def st1_def by blast
qed

section \<open>Properties of the Dispatcher\<close>

lemma listed_append: "listed (xs @ ys) = listed xs @ listed ys"
  by (induction xs rule: listed.induct) auto


lemma try_server_log:
  assumes "try_server e tool_name data server st = (r, st')"
  shows "\<exists>calls. st' = st\<lparr>net_log := net_log st @ calls\<rparr> \<and> listed calls = [base_url server] \<and>
           set calls \<subseteq> {ListTools (base_url server), CallTool (base_url server) tool_name data}"
proof -
  let ?l = "ListTools (base_url server)" and ?c = "CallTool (base_url server) tool_name data"
  from assms have "st' = st\<lparr>net_log := net_log st @ [?l]\<rparr> \<or> st' = st\<lparr>net_log := net_log st @ [?l, ?c]\<rparr>"
    by (auto simp: try_server_def Let_def split: reply.splits if_splits)
  then show ?thesis
  proof
    assume "st' = st\<lparr>net_log := net_log st @ [?l]\<rparr>"
    then show ?thesis by (intro exI [of _ "[?l]"]) simp
  next
    assume "st' = st\<lparr>net_log := net_log st @ [?l, ?c]\<rparr>"
    then show ?thesis by (intro exI [of _ "[?l, ?c]"]) simp
  qed
qed


lemma invoke_loop_None_log:
  assumes "invoke_loop e tool_name data cs st = (None, st')"
  shows "\<exists>calls. st' = st\<lparr>net_log := net_log st @ calls\<rparr> \<and> listed calls = map base_url cs \<and>
           set calls \<subseteq> (\<Union>c\<in>set cs. {ListTools (base_url c), CallTool (base_url c) tool_name data})"
  using assms
proof (induction cs arbitrary: st)
  case Nil
  then show ?case by (intro exI [of _ "[]"]) simp
next
  case (Cons c cs)
  from Cons.prems obtain st1 where t: "try_server e tool_name data c st = (None, st1)"
    and l: "invoke_loop e tool_name data cs st1 = (None, st')"
    by (auto split: prod.splits option.splits)
  from try_server_log [OF t] obtain calls1 where c1:
    "st1 = st\<lparr>net_log := net_log st @ calls1\<rparr>" "listed calls1 = [base_url c]"
    "set calls1 \<subseteq> {ListTools (base_url c), CallTool (base_url c) tool_name data}"
    by blast
  from Cons.IH [OF l] obtain calls2 where c2:
    "st' = st1\<lparr>net_log := net_log st1 @ calls2\<rparr>" "listed calls2 = map base_url cs"
    "set calls2 \<subseteq> (\<Union>c\<in>set cs. {ListTools (base_url c), CallTool (base_url c) tool_name data})"
    by blast
  have "st' = st\<lparr>net_log := net_log st @ (calls1 @ calls2)\<rparr>"
    using c1(1) c2(1) by simp
  moreover have "listed (calls1 @ calls2) = map base_url (c # cs)"
    using c1(2) c2(2) by (simp add: listed_append)
  moreover have "set (calls1 @ calls2) \<subseteq>
      (\<Union>c\<in>set (c # cs). {ListTools (base_url c), CallTool (base_url c) tool_name data})"
    using c1(3) c2(3) by auto
  ultimately show ?case by blast
qed

lemma invoke_loop_Some_split:
  assumes "invoke_loop e tool_name data cs st = (Some result, st')"
  shows "\<exists>pre c post st1. cs = pre @ c # post \<and>
           invoke_loop e tool_name data pre st = (None, st1) \<and>
           try_server e tool_name data c st1 = (Some result, st')"
  using assms
proof (induction cs arbitrary: st)
  case Nil
  then show ?case by simp
next
  case (Cons c cs)
  obtain r st1 where t: "try_server e tool_name data c st = (r, st1)"
    by (cases "try_server e tool_name data c st")
  show ?case
  proof (cases r)
    case None
    with t Cons.prems have "invoke_loop e tool_name data cs st1 = (Some result, st')"
      by simp
    from Cons.IH [OF this] obtain pre d post st2 where
      "cs = pre @ d # post" "invoke_loop e tool_name data pre st1 = (None, st2)"
      "try_server e tool_name data d st2 = (Some result, st')"
      by blast
    then have "c # cs = (c # pre) @ d # post \<and>
               invoke_loop e tool_name data (c # pre) st = (None, st2) \<and>
               try_server e tool_name data d st2 = (Some result, st')"
      using t None by simp
    then show ?thesis by blast
  next
    case (Some res)
    with t Cons.prems have "res = result" "st1 = st'" by simp_all
    with t Some have "c # cs = [] @ c # cs \<and>
               invoke_loop e tool_name data [] st = (None, st) \<and>
               try_server e tool_name data c st = (Some result, st')"
      by simp
    then show ?thesis by blast
  qed
qed

lemma invoke_loop_log:
  assumes "invoke_loop e tool_name data cs st = (r, st')"
  shows "\<exists>calls. st' = st\<lparr>net_log := net_log st @ calls\<rparr> \<and>
           set calls \<subseteq> (\<Union>c\<in>set cs. {ListTools (base_url c), CallTool (base_url c) tool_name data})"
proof (cases r)
  case None
  then show ?thesis using invoke_loop_None_log [of e tool_name data cs st st'] assms by blast
next
  case (Some result)
  with assms obtain pre c post st1 where sp: "cs = pre @ c # post"
    "invoke_loop e tool_name data pre st = (None, st1)"
    "try_server e tool_name data c st1 = (Some result, st')"
    using invoke_loop_Some_split by blast
  from invoke_loop_None_log [OF sp(2)] obtain calls1 where c1:
    "st1 = st\<lparr>net_log := net_log st @ calls1\<rparr>"
    "set calls1 \<subseteq> (\<Union>c\<in>set pre. {ListTools (base_url c), CallTool (base_url c) tool_name data})"
    by blast
  from try_server_log [OF sp(3)] obtain calls2 where c2:
    "st' = st1\<lparr>net_log := net_log st1 @ calls2\<rparr>"
    "set calls2 \<subseteq> {ListTools (base_url c), CallTool (base_url c) tool_name data}"
    by blast
  have "st' = st\<lparr>net_log := net_log st @ (calls1 @ calls2)\<rparr>"
    using c1(1) c2(1) by simp
  moreover have "set (calls1 @ calls2) \<subseteq>
      (\<Union>c\<in>set cs. {ListTools (base_url c), CallTool (base_url c) tool_name data})"
    using c1(2) c2(2) sp(1) by auto
  ultimately show ?thesis by blast
qed

text \<open>
  Claim C1. A request whose name resolves to the consent tool \<open>ask_for_permission\<close>
  qualified with a server name other than \<open>PermissionServer\<close> is answered 403
  "Permission denied: unauthorized server" and the state is returned as it was: no
  network call is logged, no health check is run, whether or not a backend of that name
  is registered and whatever it would answer. An unqualified request for the consent tool
  only ever contacts the entry stored under \<open>PermissionServer\<close>: every call it adds
  to the log is the catalog fetch or the tool call on that entry's address, nothing else
  in the state changes, and when there is no such entry the lookup raises \<open>KeyError\<close>
  before any call.
\<close>

theorem consent_tool_only_on_privileged_backend:
  "(resolve_name nm = (Some sn, ''ask_for_permission'') \<and> sn \<noteq> ''PermissionServer'' \<longrightarrow>
      call_tool e \<lparr>req_name = Some nm, req_args = data\<rparr> st =
        (ErrorResponse 403 ''Permission denied: unauthorized server'', st)) \<and>
   (call_tool e \<lparr>req_name = Some ''ask_for_permission'', req_args = data\<rparr> st = (resp, st') \<longrightarrow>
      (case map_of (servers st) ''PermissionServer'' of
         None \<Rightarrow> resp = Unhandled (KeyError ''PermissionServer'') \<and> st' = st
       | Some p \<Rightarrow>
           (\<exists>calls. st' = st\<lparr>net_log := net_log st @ calls\<rparr> \<and>
              set calls \<subseteq> {ListTools (base_url p), CallTool (base_url p) ''ask_for_permission'' data})))"
proof (intro conjI impI)
  assume "resolve_name nm = (Some sn, ''ask_for_permission'') \<and> sn \<noteq> ''PermissionServer''"
  then show "call_tool e \<lparr>req_name = Some nm, req_args = data\<rparr> st =
        (ErrorResponse 403 ''Permission denied: unauthorized server'', st)"
    by (simp add: call_tool_def select_targets_def CONSENT_TOOL_def PERMISSION_SERVER_NAME_def)
next
  assume run: "call_tool e \<lparr>req_name = Some ''ask_for_permission'', req_args = data\<rparr> st = (resp, st')"
  have rn: "resolve_name ''ask_for_permission'' = (None, ''ask_for_permission'')"
    by (simp add: resolve_name_def)
  show "case map_of (servers st) ''PermissionServer'' of
         None \<Rightarrow> resp = Unhandled (KeyError ''PermissionServer'') \<and> st' = st
       | Some p \<Rightarrow>
           (\<exists>calls. st' = st\<lparr>net_log := net_log st @ calls\<rparr> \<and>
              set calls \<subseteq> {ListTools (base_url p), CallTool (base_url p) ''ask_for_permission'' data})"
  proof (cases "map_of (servers st) ''PermissionServer''")
    case None
    then show ?thesis
      using run
      by (auto simp: call_tool_def rn select_targets_def CONSENT_TOOL_def PERMISSION_SERVER_NAME_def)
  next
    case (Some p)
    obtain r st2 where il: "invoke_loop e ''ask_for_permission'' data [p] st = (r, st2)"
      by (cases "invoke_loop e ''ask_for_permission'' data [p] st")
    have "st' = st2"
      using run Some il
      by (auto simp: call_tool_def rn select_targets_def CONSENT_TOOL_def PERMISSION_SERVER_NAME_def
               split: option.splits)
    then show ?thesis
      using invoke_loop_log [OF il] Some by simp
  qed
qed

theorem consent_tool_only_on_privileged_backend_witness:
  "resolve_name ''Evil.ask_for_permission'' = (Some ''Evil'', ''ask_for_permission'') \<and>
   ''Evil'' \<noteq> ''PermissionServer'' \<and>
   map_of (servers state_three) ''Evil'' = Some evil_server \<and>
   call_tool env_evil \<lparr>req_name = Some ''Evil.ask_for_permission'', req_args = []\<rparr> state_three =
     (ErrorResponse 403 ''Permission denied: unauthorized server'', state_three) \<and>
   call_tool env_evil \<lparr>req_name = Some ''ask_for_permission'', req_args = []\<rparr> state_three =
     (Response 200 [''granted''],
      state_three\<lparr>net_log := [ListTools (base_url permission_server),
                               CallTool (base_url permission_server) ''ask_for_permission'' []]\<rparr>)"
proof -
  have rn: "resolve_name ''Evil.ask_for_permission'' = (Some ''Evil'', ''ask_for_permission'')"
    by (simp add: resolve_name_def split_dot1_def)
  have denied:
    "call_tool env_evil \<lparr>req_name = Some ''Evil.ask_for_permission'', req_args = []\<rparr> state_three =
       (ErrorResponse 403 ''Permission denied: unauthorized server'', state_three)"
    using consent_tool_only_on_privileged_backend
            [of "''Evil.ask_for_permission''" "''Evil''" env_evil "[]" state_three] rn
    by simp
  have granted:
    "call_tool env_evil \<lparr>req_name = Some ''ask_for_permission'', req_args = []\<rparr> state_three =
     (Response 200 [''granted''],
      state_three\<lparr>net_log := [ListTools (base_url permission_server),
                               CallTool (base_url permission_server) ''ask_for_permission'' []]\<rparr>)"
    by (simp add: call_tool_def resolve_name_def select_targets_def CONSENT_TOOL_def
          state_three_def try_server_def env_evil_def consent_decl_def Let_def)
  have "map_of (servers state_three) ''Evil'' = Some evil_server"
    by (simp add: state_three_def PERMISSION_SERVER_NAME_def)
  with rn denied granted show ?thesis by simp
qed



section \<open>Candidate selection\<close>

lemma check_server_health_effect:
  assumes "check_server_health e server st = (ok, st')"
  shows "(\<exists>t. health_cache st' (name server) = Some (t, ok)) \<and>
         (\<forall>k. k \<noteq> name server \<longrightarrow> health_cache st' k = health_cache st k) \<and>
         servers st' = servers st \<and> storage_file st' = storage_file st"
proof (cases "health_cache st (name server)")
  case None
  then show ?thesis using assms by (auto simp: check_uncached probe_health_eq)
next
  case (Some rec)
  obtain last_check v where rec: "rec = (last_check, v)" by (cases rec)
  show ?thesis
  proof (cases "clock e (ticks st) - last_check < HEALTH_TTL")
    case True
    then show ?thesis
      using assms Some rec check_cached [of st server last_check v e] by auto
  next
    case False
    then show ?thesis
      using assms Some rec check_stale [of st server last_check v e]
      by (auto simp: probe_health_eq)
  qed
qed








section \<open>Snapshot round trip and the table invariant\<close>

lemma server_of_dict_vars: "server_of_dict (vars server) = Some server"
  by (simp add: server_of_dict_def vars_def)

lemma dict_set_fresh:
  assumes "k \<notin> fst ` set d"
  shows "dict_set d k v = d @ [(k, v)]"
  using assms by (induction d) auto

lemma load_entries_all_healthy:
  assumes "all_healthy e ss st"
  shows "fst (load_entries e (map vars ss) loaded st) =
           foldl (\<lambda>acc s. dict_set acc (name s) s) loaded ss"
  using assms
proof (induction ss arbitrary: st loaded)
  case Nil
  then show ?case by simp
next
  case (Cons s ss)
  obtain ok st1 where chk: "check_server_health e s st = (ok, st1)"
    by (cases "check_server_health e s st")
  with Cons.prems have ok and rest: "all_healthy e ss st1"
    by simp_all
  show ?case
    using chk \<open>ok\<close> Cons.IH [OF rest] by (simp add: server_of_dict_vars)
qed

lemma refill_table:
  assumes "table_ok (loaded @ tbl)"
  shows "foldl (\<lambda>acc s. dict_set acc (name s) s) loaded (dict_values tbl) = loaded @ tbl"
  using assms
proof (induction tbl arbitrary: loaded)
  case Nil
  then show ?case by (simp add: dict_values_def)
next
  case (Cons entry tbl)
  obtain k s where entry: "entry = (k, s)" by (cases entry)
  from Cons.prems entry have nm: "name s = k" and fresh: "k \<notin> fst ` set loaded"
    by (auto simp: table_ok_def)
  have step: "dict_set loaded (name s) s = loaded @ [(k, s)]"
    using nm fresh by (simp add: dict_set_fresh)
  have "table_ok ((loaded @ [(k, s)]) @ tbl)"
    using Cons.prems entry by simp
  from Cons.IH [OF this] show ?case
    using entry step by (simp add: dict_values_def)
qed

lemma snapshot_values:
  "dict_values (map (\<lambda>(k, server). (k, vars server)) tbl) = map vars (dict_values tbl)"
  by (induction tbl) (auto simp: dict_values_def)

text \<open>
  Claim C9. For every Backend table whose entries are stored under their own names (the
  only tables the service builds, see \<open>register_server_table_ok\<close> and
  \<open>run_table_ok\<close> below): after the table is saved, loading from a state that holds
  the saved snapshot, whatever that state has in memory (after a restart: an empty
  table and an empty cache), gives back the very same table when every saved backend
  passes its health check there, so the same names in the same order, each with the
  same url, port and description.
\<close>

theorem snapshot_round_trip:
  "table_ok (servers st) \<and> storage_file st2 = storage_file (save_servers st) \<and>
   all_healthy e (dict_values (servers st)) st2 \<longrightarrow>
     fst (load_servers e st2) = servers st \<and>
     (\<forall>k. map_of (fst (load_servers e st2)) k = map_of (servers st) k)"
proof
  assume a: "table_ok (servers st) \<and> storage_file st2 = storage_file (save_servers st) \<and>
             all_healthy e (dict_values (servers st)) st2"
  have "fst (load_servers e st2) =
          fst (load_entries e (map vars (dict_values (servers st))) [] st2)"
    using a by (simp add: load_servers_def save_servers_def snapshot_values)
  also have "\<dots> = foldl (\<lambda>acc s. dict_set acc (name s) s) [] (dict_values (servers st))"
    using a by (simp add: load_entries_all_healthy)
  also have "\<dots> = servers st"
    using a refill_table [of "[]" "servers st"] by simp
  finally show "fst (load_servers e st2) = servers st \<and>
     (\<forall>k. map_of (fst (load_servers e st2)) k = map_of (servers st) k)"
    by simp
qed

text \<open>The assumption holds, for one, when every health endpoint answers 200 and the cache
  holds no unhealthy verdict for the backends, as in a process that has just started.\<close>

lemma all_healthy_when_reachable:
  assumes "\<forall>log u. http_get e log u = Reply 200"
    and "\<forall>s \<in> set ss. \<forall>t. health_cache st (name s) \<noteq> Some (t, False)"
  shows "all_healthy e ss st"
  using assms(2)
proof (induction ss arbitrary: st)
  case Nil
  then show ?case by simp
next
  case (Cons s ss)
  obtain ok st1 where chk: "check_server_health e s st = (ok, st1)"
    by (cases "check_server_health e s st")
  have ok_and_cache: "ok \<and> (\<forall>k t. health_cache st1 k = Some (t, False) \<longrightarrow> health_cache st k = Some (t, False))"
  proof (cases "health_cache st (name s)")
    case None
    then show ?thesis
      using chk assms(1) by (auto simp: check_uncached probe_health_eq split: if_splits)
  next
    case (Some rec)
    obtain last_check v where rec: "rec = (last_check, v)" by (cases rec)
    have v using Cons.prems Some rec by (cases v) auto
    show ?thesis
    proof (cases "clock e (ticks st) - last_check < HEALTH_TTL")
      case True
      then show ?thesis
        using chk Some rec \<open>v\<close> check_cached [of st s last_check v e] by auto
    next
      case False
      then show ?thesis
        using chk Some rec assms(1) check_stale [of st s last_check v e]
        by (auto simp: probe_health_eq split: if_splits)
    qed
  qed
  then have "\<forall>x \<in> set ss. \<forall>t. health_cache st1 (name x) \<noteq> Some (t, False)"
    using Cons.prems by auto
  from Cons.IH [OF this] ok_and_cache chk show ?case by simp
qed

theorem snapshot_round_trip_witness:
  "table_ok (servers state_three) \<and>
   storage_file state_restarted = storage_file (save_servers state_three) \<and>
   servers state_restarted = [] \<and>
   all_healthy env_up (dict_values (servers state_three)) state_restarted \<and>
   storage_file (save_servers state_three) =
     Some [(PERMISSION_SERVER_NAME, vars permission_server), (''Echo'', vars echo_server),
           (''Evil'', vars evil_server)] \<and>
   fst (load_servers env_up state_restarted) =
     [(PERMISSION_SERVER_NAME, permission_server), (''Echo'', echo_server), (''Evil'', evil_server)]"
proof -
  have ok: "table_ok (servers state_three)"
    by (simp add: table_ok_def state_three_def PERMISSION_SERVER_NAME_def
          permission_server_def echo_server_def evil_server_def)
  have snap: "storage_file state_restarted = storage_file (save_servers state_three)"
    and empty: "servers state_restarted = []"
    by (simp_all add: state_restarted_def state0_def)
  have up: "all_healthy env_up (dict_values (servers state_three)) state_restarted"
    by (rule all_healthy_when_reachable)
       (simp_all add: env_up_def state_restarted_def state0_def)
  have written: "storage_file (save_servers state_three) =
     Some [(PERMISSION_SERVER_NAME, vars permission_server), (''Echo'', vars echo_server),
           (''Evil'', vars evil_server)]"
    by (simp add: save_servers_def state_three_def)
  have "fst (load_servers env_up state_restarted) = servers state_three"
    using snapshot_round_trip [of state_three state_restarted env_up] ok snap up by simp
  then show ?thesis
    using ok snap empty up written by (simp add: state_three_def)
qed

text \<open>The invariant is kept by registration and by startup.\<close>

lemma map_fst_dict_set:
  "map fst (dict_set d k v) = (if k \<in> set (map fst d) then map fst d else map fst d @ [k])"
  by (induction d) (auto simp: rev_image_eqI)

lemma list_all_dict_set:
  assumes "list_all P d" and "P (k, v)"
  shows "list_all P (dict_set d k v)"
  using assms by (induction d) auto

lemma table_ok_dict_set:
  assumes "table_ok tbl" and "name server = k"
  shows "table_ok (dict_set tbl k server)"
  using assms by (simp add: table_ok_def map_fst_dict_set list_all_dict_set)

lemma register_server_table_ok:
  assumes "table_ok (servers st)"
  shows "table_ok (servers (snd (register_server e data st)))"
  using assms
  by (auto simp: register_server_def save_servers_def Let_def table_ok_dict_set
           split: option.splits sum.splits)

lemma load_entries_table_ok:
  assumes "table_ok loaded"
  shows "table_ok (fst (load_entries e ds loaded st))"
  using assms
  by (induction ds arbitrary: loaded st)
     (auto simp: table_ok_dict_set split: option.splits prod.splits)

lemma load_servers_table_ok: "table_ok (fst (load_servers e st))"
proof -
  have "table_ok []" by (simp add: table_ok_def)
  then show ?thesis
    by (simp add: load_servers_def load_entries_table_ok split: option.splits)
qed

lemma load_entries_servers: "servers (snd (load_entries e ds loaded st)) = servers st"
proof (induction ds arbitrary: loaded st)
  case Nil
  then show ?case by simp
next
  case (Cons d ds)
  show ?case
  proof (cases "server_of_dict d")
    case None
    then show ?thesis by simp
  next
    case (Some server)
    obtain ok st1 where chk: "check_server_health e server st = (ok, st1)"
      by (cases "check_server_health e server st")
    then have "servers st1 = servers st"
      using check_server_health_effect by blast
    then show ?thesis
      using Some chk Cons.IH by simp
  qed
qed

lemma load_servers_servers: "servers (snd (load_servers e st)) = servers st"
  by (simp add: load_servers_def load_entries_servers split: option.splits)

lemma adopt_loaded_table_ok:
  assumes "table_ok tbl" and "list_all (\<lambda>(k, server). name server = k) loaded"
  shows "table_ok (adopt_loaded loaded tbl)"
  using assms
  by (induction loaded arbitrary: tbl) (auto simp: table_ok_dict_set)

lemma run_table_ok:
  assumes "table_ok (servers st)" and "run e st = Inr st'"
  shows "table_ok (servers st')"
proof -
  from assms(2) obtain st1 where lp: "load_permission_server e st = Inr st1"
    by (auto simp: run_def split: sum.splits)
  then have ok1: "table_ok (servers st1)"
    using assms(1) by (auto simp: load_permission_server_def table_ok_dict_set split: sum.splits)
  obtain loaded st2 where ld: "load_servers e st1 = (loaded, st2)"
    by (cases "load_servers e st1")
  have "table_ok loaded"
    using load_servers_table_ok [of e st1] ld by simp
  then have names: "list_all (\<lambda>(k, server). name server = k) loaded"
    by (simp add: table_ok_def)
  have same: "servers st2 = servers st1"
    using load_servers_servers [of e st1] ld by simp
  have "st' = save_servers (st2\<lparr>servers := adopt_loaded loaded (servers st2)\<rparr>)"
    using assms(2) lp ld by (simp add: run_def)
  then show ?thesis
    using ok1 same names by (simp add: save_servers_def adopt_loaded_table_ok)
qed

section \<open>Properties of the Tool Directory\<close>









section \<open>Handlers that do not register leave the table as it is\<close>

text \<open>With \<open>register_server_table_ok\<close> and \<open>run_table_ok\<close>, the invariant
  \<open>table_ok\<close> holds in every state the service reaches from an empty table.\<close>

lemma healthy_servers_servers: "servers (snd (healthy_servers e ss st)) = servers st"
proof (induction ss arbitrary: st)
  case Nil
  then show ?case by simp
next
  case (Cons s ss)
  obtain ok st1 where chk: "check_server_health e s st = (ok, st1)"
    by (cases "check_server_health e s st")
  then have "servers st1 = servers st"
    using check_server_health_effect by blast
  then show ?case
    using chk Cons.IH [of st1] by (simp add: split_def Let_def)
qed

lemma get_servers_servers: "servers (snd (get_servers e st)) = servers st"
  using healthy_servers_servers [of e "dict_values (servers st)" st]
  by (simp add: get_servers_def split_def Let_def)

lemma call_tool_servers: "servers (snd (call_tool e data st)) = servers st"
proof (cases "req_name data")
  case None
  then show ?thesis by (simp add: call_tool_def)
next
  case (Some nm)
  obtain server_name tool_name where rn: "resolve_name nm = (server_name, tool_name)"
    by (cases "resolve_name nm")
  obtain sel st1 where s: "select_targets e server_name tool_name st = (sel, st1)"
    by (cases "select_targets e server_name tool_name st")
  have kept: "servers st1 = servers st"
    using s healthy_servers_servers [of e "dict_values (servers st)" st]
    by (auto simp: select_targets_def split_def Let_def split: option.splits if_splits)
  show ?thesis
  proof (cases sel)
    case (Inl resp)
    then show ?thesis using Some rn s kept by (simp add: call_tool_def)
  next
    case (Inr target_servers)
    obtain r st2 where il: "invoke_loop e tool_name (req_args data) target_servers st1 = (r, st2)"
      by (cases "invoke_loop e tool_name (req_args data) target_servers st1")
    from invoke_loop_log [OF il] have "servers st2 = servers st1"
      by auto
    then show ?thesis
      using Some rn s Inr il kept by (cases r) (simp_all add: call_tool_def)
  qed
qed

lemma get_tools_loop_servers: "servers (snd (get_tools_loop e ss all_tools st)) = servers st"
proof (induction ss arbitrary: all_tools st)
  case Nil
  then show ?case by simp
next
  case (Cons s ss)
  obtain ok st1 where chk: "check_server_health e s st = (ok, st1)"
    by (cases "check_server_health e s st")
  then have "servers st1 = servers st"
    using check_server_health_effect by blast
  then show ?case
    using chk Cons.IH by (auto simp: Let_def now_def split: reply.splits)
qed

lemma get_tools_servers: "servers (snd (get_tools e scope st)) = servers st"
  by (auto simp: get_tools_def split_def Let_def get_tools_loop_servers simp del: get_tools_loop.simps
           split: option.splits)

section \<open>Rendering of addresses\<close>

lemma base_url_echo_server: "base_url echo_server = ''http://127.0.0.1:5003''"
  by (simp add: base_url_def str_int_def str_nat.simps echo_server_def)

lemma str_int_negative: "str_int (- 42) = ''-42''"
  by (simp add: str_int_def str_nat.simps)

end
